theory Spec2Isabelle
  imports Main "HOL-Library.Sublist"
begin

section \<open>Strings\<close>

text \<open>
  A Python \<open>str\<close> is a sequence of Unicode code points, so a string is a list of naturals.
  \<open>str\<close> writes an ASCII literal as such a list.
\<close>

type_synonym pystr = "nat list"

definition str :: "string \<Rightarrow> pystr" where
  "str cs = map of_char cs"

text \<open>
  \<open>c.isalnum()\<close>. On ASCII it holds of the digits and the letters exactly. Beyond ASCII the
  answer comes from the Unicode character database of the interpreter, which is no part
  of the repository: it is the parameter \<open>U\<close> of everything below.
\<close>

definition isalnum :: "(nat \<Rightarrow> bool) \<Rightarrow> nat \<Rightarrow> bool" where
  "isalnum U c =
     (if c < 128
      then (48 \<le> c \<and> c \<le> 57) \<or> (65 \<le> c \<and> c \<le> 90) \<or> (97 \<le> c \<and> c \<le> 122)
      else U c)"

text \<open>\<open>s.replace(old, new)\<close> for one-character \<open>old\<close> and \<open>new\<close>: every occurrence is replaced.\<close>

definition replace :: "nat \<Rightarrow> nat \<Rightarrow> pystr \<Rightarrow> pystr" where
  "replace old new s = map (\<lambda>c. if c = old then new else c) s"

text \<open>
  main.py, lines 85 to 89:
  \<^verbatim>\<open>
  new_filename = f"{artist} - {title}.{extension}"
  new_filename = "".join(
      [c for c in new_filename if c.isalnum() or c in " -_."]
  ).replace(" ", "_")
  \<close>
  \<open>candidate\<close> is the first assignment, \<open>sanitize\<close> the second, \<open>new_filename\<close> both.
\<close>

definition candidate :: "pystr \<Rightarrow> pystr \<Rightarrow> pystr \<Rightarrow> pystr" where
  "candidate artist title extension = artist @ str '' - '' @ title @ str ''.'' @ extension"

definition kept :: "(nat \<Rightarrow> bool) \<Rightarrow> nat \<Rightarrow> bool" where
  "kept U c = (isalnum U c \<or> c \<in> set (str '' -_.''))"

definition sanitize :: "(nat \<Rightarrow> bool) \<Rightarrow> pystr \<Rightarrow> pystr" where
  "sanitize U s = replace 32 95 (filter (kept U) s)"

definition new_filename :: "(nat \<Rightarrow> bool) \<Rightarrow> pystr \<Rightarrow> pystr \<Rightarrow> pystr \<Rightarrow> pystr" where
  "new_filename U artist title extension = sanitize U (candidate artist title extension)"

section \<open>The enumerations of the script\<close>

datatype ColorCode = RED | GREEN | YELLOW | BLUE | MAGENTA | CYAN | RESET

datatype Extension = MP3 | FLAC | OGG | WAV

fun Extension_value :: "Extension \<Rightarrow> pystr" where
  "Extension_value MP3 = str ''mp3''"
| "Extension_value FLAC = str ''flac''"
| "Extension_value OGG = str ''ogg''"
| "Extension_value WAV = str ''wav''"

section \<open>Paths and the file system\<close>

text \<open>
  A path is absolute (\<open>main\<close> resolves the target directory, and \<open>rglob\<close> yields paths below
  it): the list of its components from the root. \<open>as_posix\<close> followed by \<open>Path(...)\<close> is the
  identity on such a path, so \<open>working_file\<close> is kept as a path.
  The file system maps a path to a regular file (with its content) or to a directory; the
  order of the entries is the order in which a scan meets them, which nothing fixes.
\<close>

type_synonym path = "pystr list"

datatype node = File nat | Dir

type_synonym filesystem = "(path \<times> node) list"

definition parent :: "path \<Rightarrow> path" where
  "parent p = butlast p"

definition joinpath :: "path \<Rightarrow> pystr \<Rightarrow> path" where
  "joinpath directory name = directory @ [name]"

definition exists :: "filesystem \<Rightarrow> path \<Rightarrow> bool" where
  "exists fs p = (map_of fs p \<noteq> None)"

definition is_dir :: "filesystem \<Rightarrow> path \<Rightarrow> bool" where
  "is_dir fs p = (map_of fs p = Some Dir)"

text \<open>
  A well-formed file system names every path once, and every entry but the root lies in a
  directory.
\<close>

definition wf_fs :: "filesystem \<Rightarrow> bool" where
  "wf_fs fs = (distinct (map fst fs) \<and> list_all (\<lambda>(p, n). p = [] \<or> is_dir fs (parent p)) fs)"

datatype error =
    KeyError | ValueError | IndexError
  | FileNotFoundError | IsADirectoryError | NotADirectoryError | OSError
  | ClientError | ExceptionGroup
  | SystemExit nat

text \<open>
  \<open>directory.rglob(f"*.{extension}")\<close>, for an extension without pattern characters (the
  command line admits mp3, flac, ogg and wav only): every entry strictly below the directory
  whose name ends in a dot and the extension; nothing when the path is no directory.
\<close>

definition rglob :: "filesystem \<Rightarrow> path \<Rightarrow> pystr \<Rightarrow> path list" where
  "rglob fs directory extension =
     (if is_dir fs directory
      then filter (\<lambda>p. strict_prefix directory p \<and> suffix (str ''.'' @ extension) (last p))
             (map fst fs)
      else [])"

definition get_music_files_sync :: "filesystem \<Rightarrow> path \<Rightarrow> pystr \<Rightarrow> path list" where
  "get_music_files_sync fs directory extension = rglob fs directory extension"

text \<open>
  \<open>os.rename(src, dst)\<close> with the semantics Python documents for POSIX: a missing source
  fails; the directory of the destination must exist; renaming a path to itself does nothing;
  a regular file silently replaces an existing regular file; an empty directory is replaced
  by a directory; a file and a directory never replace each other; a directory does not move
  below itself. A directory moves with everything below it.
\<close>

definition move :: "path \<Rightarrow> path \<Rightarrow> filesystem \<Rightarrow> filesystem" where
  "move src dst fs =
     map (\<lambda>(p, n). if prefix src p then (dst @ drop (length src) p, n) else (p, n))
       (filter (\<lambda>(p, n). p \<noteq> dst) fs)"

definition os_rename :: "filesystem \<Rightarrow> path \<Rightarrow> path \<Rightarrow> error + filesystem" where
  "os_rename fs src dst =
     (case map_of fs src of
        None \<Rightarrow> Inl FileNotFoundError
      | Some s \<Rightarrow>
          (case map_of fs (parent dst) of
             None \<Rightarrow> Inl FileNotFoundError
           | Some (File c) \<Rightarrow> Inl NotADirectoryError
           | Some Dir \<Rightarrow>
               if src = dst then Inr fs
               else if strict_prefix src dst then Inl OSError
               else
                 (case map_of fs dst of
                    None \<Rightarrow> Inr (move src dst fs)
                  | Some (File c) \<Rightarrow>
                      (case s of
                         File b \<Rightarrow> Inr (move src dst fs)
                       | Dir \<Rightarrow> Inl NotADirectoryError)
                  | Some Dir \<Rightarrow>
                      (case s of
                         File b \<Rightarrow> Inl IsADirectoryError
                       | Dir \<Rightarrow>
                           if list_ex (\<lambda>(p, n). strict_prefix dst p) fs then Inl OSError
                           else Inr (move src dst fs)))))"

section \<open>The state of a run\<close>

text \<open>
  What the script prints, as the argument of \<open>print_colored\<close>: one constructor for each
  f-string of the script, holding the values it formats.
\<close>

datatype message =
    NoMusicFiles pystr path
  | NoSongInformation path
  | Renaming path pystr
  | DirectoryMissing path

text \<open>
  The effects of a run: the file system, the lines printed, the paths handed to
  \<open>client.recognize\<close>, and the calls of \<open>Path.rename\<close> (source and target).
\<close>

record state =
  fs :: filesystem
  console :: "(message \<times> ColorCode) list"
  requests :: "path list"
  rename_calls :: "(path \<times> path) list"

definition print_colored :: "message \<Rightarrow> ColorCode \<Rightarrow> state \<Rightarrow> state" where
  "print_colored txt color st = st\<lparr>console := console st @ [(txt, color)]\<rparr>"

text \<open>\<open>Path(src).rename(dst)\<close>: the call is made, and raises what \<open>os.rename\<close> raises.\<close>

definition rename :: "path \<Rightarrow> path \<Rightarrow> state \<Rightarrow> error option \<times> state" where
  "rename src dst st =
     (let st1 = st\<lparr>rename_calls := rename_calls st @ [(src, dst)]\<rparr>
      in case os_rename (fs st) src dst of
           Inl e \<Rightarrow> (Some e, st1)
         | Inr fs' \<Rightarrow> (None, st1\<lparr>fs := fs'\<rparr>))"

section \<open>Recognition\<close>

text \<open>
  The dictionary \<open>client.recognize\<close> returns, as far as the script reads it: the key
  \<open>"track"\<close> is present or not, and so are \<open>"title"\<close> and \<open>"subtitle"\<close> inside it.
  A call of the client may also raise, once its own retries are used up.
\<close>

record track =
  title :: "pystr option"
  subtitle :: "pystr option"

type_synonym response = "track option"

datatype recognition = Failed | Recognized response

text \<open>
  A task is an object: \<open>ident\<close> is its identity, and two tasks are equal (\<open>==\<close>) when they are
  the same object, whatever they hold.
\<close>

record task =
  ident :: nat
  outcome :: recognition

text \<open>\<open>[tg.create_task(client.recognize(file)) for file in music_files]\<close>\<close>

definition create_tasks :: "(path \<Rightarrow> recognition) \<Rightarrow> path list \<Rightarrow> task list" where
  "create_tasks recognize music_files =
     map (\<lambda>(i, file). \<lparr>ident = i, outcome = recognize file\<rparr>) (enumerate 0 music_files)"

text \<open>\<open>result.result()\<close> returns what the task returned, or raises what it raised.\<close>

definition task_result :: "task \<Rightarrow> error + response" where
  "task_result t = (case outcome t of Failed \<Rightarrow> Inl ClientError | Recognized res \<Rightarrow> Inr res)"

text \<open>\<open>results.index(result)\<close>: the first position holding the task, \<open>ValueError\<close> without one.\<close>

fun index :: "task list \<Rightarrow> task \<Rightarrow> error + nat" where
  "index [] t = Inl ValueError"
| "index (x # xs) t =
     (if ident x = ident t then Inr 0
      else (case index xs t of Inl e \<Rightarrow> Inl e | Inr i \<Rightarrow> Inr (Suc i)))"

definition getitem :: "'a list \<Rightarrow> nat \<Rightarrow> error + 'a" where
  "getitem xs i = (if i < length xs then Inr (xs ! i) else Inl IndexError)"

text \<open>\<open>working_file = music_files[results.index(result)]\<close>\<close>

definition working_file :: "path list \<Rightarrow> task list \<Rightarrow> task \<Rightarrow> error + path" where
  "working_file music_files results result =
     (case index results result of
        Inl e \<Rightarrow> Inl e
      | Inr i \<Rightarrow> getitem music_files i)"

text \<open>\<open>d.get(key, default)\<close>\<close>

definition get :: "'a option \<Rightarrow> 'a \<Rightarrow> 'a" where
  "get field dflt = (case field of None \<Rightarrow> dflt | Some v \<Rightarrow> v)"

section \<open>process_music_files and main\<close>

text \<open>
  Lines 74 to 96, what the loop does with the working file and the dictionary the task
  returned: without \<open>"track"\<close> the \<open>KeyError\<close> is caught, a line is printed and the loop goes
  on; with it the new name is built and printed, and the file is renamed if it exists.
\<close>

definition handle_result ::
  "(nat \<Rightarrow> bool) \<Rightarrow> path \<Rightarrow> pystr \<Rightarrow> path \<Rightarrow> response \<Rightarrow> state \<Rightarrow> error option \<times> state" where
  "handle_result U directory extension wfile res st =
     (case res of
        None \<Rightarrow> (None, print_colored (NoSongInformation wfile) YELLOW st)
      | Some tr \<Rightarrow>
          (let ttl = get (title tr) (str ''Unknown Title'');
               artist = get (subtitle tr) (str ''Unknown Artist'');
               name = new_filename U artist ttl extension;
               st1 = print_colored (Renaming wfile name) MAGENTA st
           in if exists (fs st1) wfile
              then rename wfile (joinpath directory name) st1
              else (None, st1)))"

text \<open>The body of \<open>for result in results\<close> (lines 72 to 96), for one result.\<close>

definition loop_body ::
  "(nat \<Rightarrow> bool) \<Rightarrow> path \<Rightarrow> pystr \<Rightarrow> path list \<Rightarrow> task list \<Rightarrow> task \<Rightarrow> state
     \<Rightarrow> error option \<times> state" where
  "loop_body U directory extension music_files results result st =
     (case working_file music_files results result of
        Inl e \<Rightarrow> (Some e, st)
      | Inr wfile \<Rightarrow>
          (case task_result result of
             Inl e \<Rightarrow> (Some e, st)
           | Inr res \<Rightarrow> handle_result U directory extension wfile res st))"

text \<open>The loop: an exception leaves it, with the state as it is then.\<close>

fun for_results ::
  "(nat \<Rightarrow> bool) \<Rightarrow> path \<Rightarrow> pystr \<Rightarrow> path list \<Rightarrow> task list \<Rightarrow> task list \<Rightarrow> state
     \<Rightarrow> error option \<times> state" where
  "for_results U directory extension music_files results [] st = (None, st)"
| "for_results U directory extension music_files results (result # rest) st =
     (case loop_body U directory extension music_files results result st of
        (Some e, st') \<Rightarrow> (Some e, st')
      | (None, st') \<Rightarrow> for_results U directory extension music_files results rest st')"

text \<open>
  \<open>process_music_files\<close>. The task group waits for every call; when a call has raised, leaving
  the \<open>async with\<close> block raises an exception group, and the loop is never entered.
\<close>

definition process_music_files ::
  "(nat \<Rightarrow> bool) \<Rightarrow> (path \<Rightarrow> recognition) \<Rightarrow> path \<Rightarrow> pystr \<Rightarrow> state \<Rightarrow> error option \<times> state" where
  "process_music_files U recognize directory extension st =
     (let music_files = get_music_files_sync (fs st) directory extension
      in if length music_files = 0
         then (None, print_colored (NoMusicFiles extension directory) RED st)
         else
           (let results = create_tasks recognize music_files;
                st1 = st\<lparr>requests := requests st @ music_files\<rparr>
            in if list_ex (\<lambda>t. outcome t = Failed) results
               then (Some ExceptionGroup, st1)
               else for_results U directory extension music_files results results st1))"

text \<open>
  \<open>main\<close>, after the arguments are parsed and the directory resolved. \<open>exit(1)\<close> raises
  \<open>SystemExit(1)\<close>.
\<close>

definition main ::
  "(nat \<Rightarrow> bool) \<Rightarrow> (path \<Rightarrow> recognition) \<Rightarrow> path \<Rightarrow> Extension \<Rightarrow> state \<Rightarrow> error option \<times> state" where
  "main U recognize target_dir extension st =
     (if \<not> (exists (fs st) target_dir \<or> is_dir (fs st) target_dir)
      then (Some (SystemExit 1), print_colored (DirectoryMissing target_dir) RED st)
      else process_music_files U recognize target_dir (Extension_value extension) st)"

text \<open>
  The exit status of the interpreter: 0 when \<open>main\<close> returns, the argument of \<open>SystemExit\<close>,
  and 1 for any other exception that reaches the top.
\<close>

fun exit_code :: "error option \<Rightarrow> nat" where
  "exit_code None = 0"
| "exit_code (Some (SystemExit n)) = n"
| "exit_code (Some e) = 1"

text \<open>The files for which the client returns a dictionary with the key \<open>"track"\<close>.\<close>

definition has_track :: "(path \<Rightarrow> recognition) \<Rightarrow> path \<Rightarrow> bool" where
  "has_track recognize file =
     (case recognize file of Failed \<Rightarrow> False | Recognized res \<Rightarrow> res \<noteq> None)"

section \<open>Concrete inputs\<close>

text \<open>
  A character database in which nothing beyond ASCII is alphanumeric. The examples below
  are ASCII, so it is never consulted there.
\<close>

definition ascii_db :: "nat \<Rightarrow> bool" where
  "ascii_db c = False"

text \<open>A state before a run, a target directory and two files in it.\<close>

definition initial :: "filesystem \<Rightarrow> state" where
  "initial files = \<lparr>fs = files, console = [], requests = [], rename_calls = []\<rparr>"

definition music :: path where
  "music = [str ''music'']"

definition a_mp3 :: path where
  "a_mp3 = music @ [str ''a.mp3'']"

definition b_mp3 :: path where
  "b_mp3 = music @ [str ''b.mp3'']"

definition two_files :: "path list" where
  "two_files = [a_mp3, b_mp3]"

definition fs_two :: filesystem where
  "fs_two = [([], Dir), (music, Dir), (a_mp3, File 1), (b_mp3, File 2)]"

text \<open>The same directory after \<open>a.mp3\<close> was deleted.\<close>

definition fs_gone :: filesystem where
  "fs_gone = [([], Dir), (music, Dir), (b_mp3, File 2)]"

text \<open>A directory that already holds a file with the name \<open>a.mp3\<close> is going to get.\<close>

definition xy_mp3 :: path where
  "xy_mp3 = music @ [str ''X_-_Y.mp3'']"

definition fs_clash :: filesystem where
  "fs_clash = [([], Dir), (music, Dir), (a_mp3, File 1), (xy_mp3, File 2)]"

text \<open>A directory whose only music file lies in a subdirectory.\<close>

definition sub_b_mp3 :: path where
  "sub_b_mp3 = music @ [str ''sub'', str ''b.mp3'']"

definition fs_sub :: filesystem where
  "fs_sub = [([], Dir), (music, Dir), (music @ [str ''sub''], Dir), (sub_b_mp3, File 3)]"

text \<open>A path that no file system above has.\<close>

definition nowhere :: path where
  "nowhere = [str ''nowhere'']"

text \<open>
  A directory with no regular file named \<open>*.mp3\<close>: it holds a text file and a subdirectory
  whose name is \<open>live.mp3\<close>.
\<close>

definition live_mp3 :: path where
  "live_mp3 = music @ [str ''live.mp3'']"

definition notes_txt :: path where
  "notes_txt = music @ [str ''notes.txt'']"

definition fs_live :: filesystem where
  "fs_live = [([], Dir), (music, Dir), (live_mp3, Dir), (notes_txt, File 1)]"

text \<open>A client that recognizes the artist X and the title Y in every file.\<close>

definition recognized :: "string \<Rightarrow> string \<Rightarrow> recognition" where
  "recognized artist ttl = Recognized (Some \<lparr>title = Some (str ttl), subtitle = Some (str artist)\<rparr>)"

definition recognize_xy :: "path \<Rightarrow> recognition" where
  "recognize_xy file = recognized ''X'' ''Y''"

text \<open>A client whose every call raises, as reading a directory as audio does.\<close>

definition recognize_fails :: "path \<Rightarrow> recognition" where
  "recognize_fails file = Failed"

text \<open>A client that recognizes \<open>a.mp3\<close> only.\<close>

definition recognize_a :: "path \<Rightarrow> recognition" where
  "recognize_a file = (if file = a_mp3 then recognized ''X'' ''Y'' else Recognized None)"

section \<open>Sanitization\<close>

lemma kept_underscore: "kept U 95"
  by (simp add: kept_def str_def)

lemma replace_absent: "old \<notin> set s \<Longrightarrow> replace old new s = s"
  by (induction s) (auto simp: replace_def)

lemma sanitize_kept: "c \<in> set (sanitize U s) \<Longrightarrow> kept U c"
  by (auto simp: sanitize_def replace_def kept_underscore split: if_splits)

lemma sanitize_no_space: "32 \<notin> set (sanitize U s)"
  by (auto simp: sanitize_def replace_def)

lemma sanitize_append: "sanitize U (xs @ ys) = sanitize U xs @ sanitize U ys"
  by (simp add: sanitize_def replace_def)

lemma sanitize_spaces: "sanitize U (replicate n 32) = replicate n 95"
  by (induction n) (simp_all add: sanitize_def replace_def kept_def str_def)

text \<open>
  C1, as the specification states it: the file name for the title "Song: Title!", the artist
  "Artist/Name" and the extension "mp3" would be "ArtistName_-_SongTitle.mp3", and a run of
  spaces would become one underscore. Neither holds of the code: the space after the colon
  is kept and becomes an underscore, and two spaces become two underscores.
\<close>

theorem C1_counterexample:
  "new_filename ascii_db (str ''Artist/Name'') (str ''Song: Title!'') (str ''mp3'')
     \<noteq> str ''ArtistName_-_SongTitle.mp3''
   \<and> sanitize ascii_db (str ''a  b'') \<noteq> str ''a_b''"
  by (simp add: new_filename_def candidate_def sanitize_def replace_def kept_def isalnum_def
      str_def)

text \<open>
  C1, amended: for that title, artist and extension the file name is
  "ArtistName_-_Song_Title.mp3", and every space becomes an underscore of its own: a run of
  \<open>n\<close> spaces becomes \<open>n\<close> underscores.
\<close>

theorem C1_new_filename:
  "new_filename U (str ''Artist/Name'') (str ''Song: Title!'') (str ''mp3'')
     = str ''ArtistName_-_Song_Title.mp3''
   \<and> sanitize U (xs @ replicate n 32 @ ys) = sanitize U xs @ replicate n 95 @ sanitize U ys"
proof
  show "new_filename U (str ''Artist/Name'') (str ''Song: Title!'') (str ''mp3'')
     = str ''ArtistName_-_Song_Title.mp3''"
    by (simp add: new_filename_def candidate_def sanitize_def replace_def kept_def
        isalnum_def str_def)
  show "sanitize U (xs @ replicate n 32 @ ys) = sanitize U xs @ replicate n 95 @ sanitize U ys"
    by (simp add: sanitize_append sanitize_spaces)
qed

theorem C1_new_filename_witness:
  "new_filename ascii_db (str ''Artist/Name'') (str ''Song: Title!'') (str ''mp3'')
     = str ''ArtistName_-_Song_Title.mp3''
   \<and> sanitize ascii_db (str ''a  b'') = str ''a__b''"
proof -
  have "sanitize ascii_db (str ''a'' @ replicate 2 32 @ str ''b'')
      = sanitize ascii_db (str ''a'') @ replicate 2 95 @ sanitize ascii_db (str ''b'')"
    using C1_new_filename [of ascii_db "str ''a''" 2 "str ''b''"] by simp
  moreover have "str ''a'' @ replicate 2 32 @ str ''b'' = str ''a  b''"
    by (simp add: str_def numeral_2_eq_2)
  moreover have "sanitize ascii_db (str ''a'') @ replicate 2 95 @ sanitize ascii_db (str ''b'')
      = str ''a__b''"
    by (simp add: sanitize_def replace_def kept_def isalnum_def str_def numeral_2_eq_2)
  ultimately show ?thesis
    using C1_new_filename [of ascii_db "str ''a''" 2 "str ''b''"] by simp
qed

text \<open>
  C5: sanitizing a string that is already sanitized changes nothing, whatever the string
  and whatever the character database.
\<close>

theorem C5_sanitize_idempotent: "sanitize U (sanitize U s) = sanitize U s"
proof -
  have "filter (kept U) (sanitize U s) = sanitize U s"
    by (simp add: sanitize_kept)
  then have "sanitize U (sanitize U s) = replace 32 95 (sanitize U s)"
    by (simp add: sanitize_def)
  then show ?thesis
    by (simp add: replace_absent sanitize_no_space)
qed

theorem C5_sanitize_idempotent_witness:
  "sanitize ascii_db (sanitize ascii_db (str ''Song: Title!'')) = str ''Song_Title''"
proof -
  have "sanitize ascii_db (str ''Song: Title!'') = str ''Song_Title''"
    by (simp add: sanitize_def replace_def kept_def isalnum_def str_def)
  then show ?thesis
    using C5_sanitize_idempotent [of ascii_db "str ''Song: Title!''"] by simp
qed

section \<open>Results and files\<close>

lemma index_nth:
  "distinct (map ident ts) \<Longrightarrow> i < length ts \<Longrightarrow> index ts (ts ! i) = Inr i"
proof (induction ts arbitrary: i)
  case Nil
  then show ?case by simp
next
  case (Cons t ts)
  show ?case
  proof (cases i)
    case 0
    then show ?thesis by simp
  next
    case (Suc j)
    with Cons.prems have j: "j < length ts" and d: "distinct (map ident ts)"
      and n: "ident t \<notin> ident ` set ts" by auto
    from j n have "ident t \<noteq> ident (ts ! j)" by (metis imageI nth_mem)
    with Cons.IH [OF d j] Suc show ?thesis by simp
  qed
qed

lemma length_create_tasks: "length (create_tasks recognize mf) = length mf"
  by (simp add: create_tasks_def)

lemma create_tasks_nth:
  "i < length mf \<Longrightarrow> create_tasks recognize mf ! i = \<lparr>ident = i, outcome = recognize (mf ! i)\<rparr>"
  by (simp add: create_tasks_def nth_enumerate_eq)

lemma ident_create_tasks: "map ident (create_tasks recognize mf) = [0..<length mf]"
  by (rule nth_equalityI) (simp_all add: length_create_tasks create_tasks_nth)

lemma working_file_nth:
  assumes "i < length mf"
  shows "working_file mf (create_tasks recognize mf) (create_tasks recognize mf ! i) = Inr (mf ! i)"
proof -
  have "distinct (map ident (create_tasks recognize mf))"
    by (simp add: ident_create_tasks)
  then have "index (create_tasks recognize mf) (create_tasks recognize mf ! i) = Inr i"
    using assms by (simp add: index_nth length_create_tasks)
  then show ?thesis
    using assms by (simp add: working_file_def getitem_def)
qed

lemma loop_body_nth:
  assumes "i < length mf" and "recognize (mf ! i) = Recognized res"
  shows "loop_body U d e mf (create_tasks recognize mf) (create_tasks recognize mf ! i) st
         = handle_result U d e (mf ! i) res st"
proof -
  have "task_result (create_tasks recognize mf ! i) = Inr res"
    using assms by (simp add: task_result_def create_tasks_nth)
  then show ?thesis
    using assms(1) by (simp add: loop_body_def working_file_nth)
qed

text \<open>
  C10: the task made for the \<open>i\<close>-th file holds what the client returned for that file, the
  working file looked up for it is the \<open>i\<close>-th file, and the loop handles that file with that
  result. Tasks are compared by identity, so this holds whatever the client returns, equal
  results included.
\<close>

theorem C10_results_paired:
  assumes "i < length music_files" and "results = create_tasks recognize music_files"
  shows "working_file music_files results (results ! i) = Inr (music_files ! i)
       \<and> outcome (results ! i) = recognize (music_files ! i)
       \<and> (\<forall>res. recognize (music_files ! i) = Recognized res \<longrightarrow>
            loop_body U directory extension music_files results (results ! i) st
              = handle_result U directory extension (music_files ! i) res st)"
proof (intro conjI allI impI)
  show "working_file music_files results (results ! i) = Inr (music_files ! i)"
    using assms by (simp add: working_file_nth)
  show "outcome (results ! i) = recognize (music_files ! i)"
    using assms by (simp add: create_tasks_nth)
  fix res
  assume "recognize (music_files ! i) = Recognized res"
  then show "loop_body U directory extension music_files results (results ! i) st
      = handle_result U directory extension (music_files ! i) res st"
    using assms by (simp add: loop_body_nth)
qed

theorem C10_results_paired_witness:
  "outcome (create_tasks recognize_xy two_files ! 0) = outcome (create_tasks recognize_xy two_files ! 1)
   \<and> working_file two_files (create_tasks recognize_xy two_files)
        (create_tasks recognize_xy two_files ! 1) = Inr b_mp3"
proof -
  have len: "1 < length two_files"
    by (simp add: two_files_def)
  have "two_files ! 1 = b_mp3"
    by (simp add: two_files_def)
  moreover have "recognize_xy (two_files ! 0) = recognize_xy (two_files ! 1)"
    by (simp add: recognize_xy_def)
  ultimately show ?thesis
    using C10_results_paired [OF len refl, of recognize_xy]
      C10_results_paired [of 0 two_files _ recognize_xy, OF _ refl]
    by (simp add: two_files_def)
qed

section \<open>What the loop does to the state\<close>

lemma drop_step:
  assumes "drop k xs = t # ts"
  shows "k < length xs \<and> t = xs ! k \<and> ts = drop (Suc k) xs"
proof -
  from assms have k: "k < length xs" by (cases "k < length xs") auto
  then have "xs ! k # drop (Suc k) xs = t # ts" using assms by (simp add: Cons_nth_drop_Suc)
  with k show ?thesis by simp
qed


lemma rename_effect:
  "rename src dst st = (err, st') \<Longrightarrow>
     rename_calls st' = rename_calls st @ [(src, dst)] \<and> requests st' = requests st"
  by (auto simp: rename_def Let_def split: sum.splits)

lemma handle_result_None:
  "handle_result U d e f None st = (None, print_colored (NoSongInformation f) YELLOW st)"
  by (simp add: handle_result_def)

lemma handle_result_effect:
  assumes "handle_result U d e f res st = (err, st')"
  shows "requests st' = requests st \<and>
         (rename_calls st' = rename_calls st \<or>
          (res \<noteq> None \<and> (\<exists>name. rename_calls st' = rename_calls st @ [(f, joinpath d name)])))"
proof (cases res)
  case None
  with assms show ?thesis by (auto simp: handle_result_def print_colored_def)
next
  case (Some tr)
  show ?thesis
  proof (cases "exists (fs st) f")
    case True
    with assms Some obtain name st1 where r: "rename f (joinpath d name) st1 = (err, st')"
      and st1: "st1 = print_colored (Renaming f name) MAGENTA st"
      by (auto simp: handle_result_def Let_def print_colored_def)
    from rename_effect [OF r] st1 Some show ?thesis
      by (auto simp: print_colored_def)
  next
    case False
    with assms Some show ?thesis
      by (auto simp: handle_result_def Let_def print_colored_def)
  qed
qed

lemma loop_body_effect:
  assumes "k < length mf"
    and "loop_body U d e mf (create_tasks recognize mf) (create_tasks recognize mf ! k) st = (err, st')"
  shows "requests st' = requests st \<and>
         (rename_calls st' = rename_calls st \<or>
          (has_track recognize (mf ! k) \<and>
           (\<exists>name. rename_calls st' = rename_calls st @ [(mf ! k, joinpath d name)])))"
proof (cases "recognize (mf ! k)")
  case Failed
  then have "task_result (create_tasks recognize mf ! k) = Inl ClientError"
    using assms(1) by (simp add: task_result_def create_tasks_nth)
  with assms show ?thesis
    by (simp add: loop_body_def working_file_nth)
next
  case (Recognized res)
  with assms have "handle_result U d e (mf ! k) res st = (err, st')"
    by (simp add: loop_body_nth)
  from handle_result_effect [OF this] Recognized show ?thesis
    by (auto simp: has_track_def)
qed

lemma for_results_calls:
  assumes "ts = drop k (create_tasks recognize mf)"
    and "for_results U d e mf (create_tasks recognize mf) ts st = (err, st')"
  shows "requests st' = requests st \<and>
         (\<exists>calls. rename_calls st' = rename_calls st @ calls \<and>
            subseq (map fst calls) (filter (has_track recognize) (drop k mf)) \<and>
            list_all (\<lambda>c. parent (snd c) = d) calls)"
  using assms
proof (induction ts arbitrary: k st)
  case Nil
  then show ?case by simp
next
  case (Cons t ts)
  let ?rs = "create_tasks recognize mf"
  from drop_step [OF Cons.prems(1) [symmetric]]
  have k: "k < length mf" and t: "t = ?rs ! k" and ts: "ts = drop (Suc k) ?rs"
    by (simp_all add: length_create_tasks)
  obtain err1 st1 where b: "loop_body U d e mf ?rs (?rs ! k) st = (err1, st1)"
    by (cases "loop_body U d e mf ?rs (?rs ! k) st")
  from loop_body_effect [OF k b]
  have rq: "requests st1 = requests st"
    and rc: "rename_calls st1 = rename_calls st \<or>
       (has_track recognize (mf ! k) \<and>
        (\<exists>name. rename_calls st1 = rename_calls st @ [(mf ! k, joinpath d name)]))"
    by simp_all
  have dk: "drop k mf = mf ! k # drop (Suc k) mf"
    using k by (simp add: Cons_nth_drop_Suc)
  have one: "\<exists>c1. rename_calls st1 = rename_calls st @ c1 \<and>
      subseq (map fst c1) (filter (has_track recognize) [mf ! k]) \<and>
      list_all (\<lambda>c. parent (snd c) = d) c1"
  proof -
    from rc show ?thesis
    proof
      assume "rename_calls st1 = rename_calls st"
      then show ?thesis by (intro exI [of _ "[]"]) simp
    next
      assume "has_track recognize (mf ! k) \<and>
        (\<exists>name. rename_calls st1 = rename_calls st @ [(mf ! k, joinpath d name)])"
      then obtain name where h: "has_track recognize (mf ! k)"
        and c: "rename_calls st1 = rename_calls st @ [(mf ! k, joinpath d name)]" by blast
      then show ?thesis
        by (intro exI [of _ "[(mf ! k, joinpath d name)]"]) (simp add: parent_def joinpath_def)
    qed
  qed
  then obtain c1 where c1: "rename_calls st1 = rename_calls st @ c1"
    and s1: "subseq (map fst c1) (filter (has_track recognize) [mf ! k])"
    and p1: "list_all (\<lambda>c. parent (snd c) = d) c1" by blast
  show ?case
  proof (cases err1)
    case (Some e1)
    with Cons.prems(2) b t have "st' = st1" by simp
    moreover have "filter (has_track recognize) (drop k mf)
        = filter (has_track recognize) [mf ! k] @ filter (has_track recognize) (drop (Suc k) mf)"
      unfolding dk by simp
    then have "subseq (map fst c1) (filter (has_track recognize) (drop k mf))"
      using s1 by (simp only: subseq_rev_drop_many)
    ultimately show ?thesis
      using rq c1 p1 by (intro conjI exI [of _ c1]) simp_all
  next
    case None
    with Cons.prems(2) b t have "for_results U d e mf ?rs ts st1 = (err, st')" by simp
    from Cons.IH [OF ts this] obtain c2 where rq2: "requests st' = requests st1"
      and c2: "rename_calls st' = rename_calls st1 @ c2"
      and s2: "subseq (map fst c2) (filter (has_track recognize) (drop (Suc k) mf))"
      and p2: "list_all (\<lambda>c. parent (snd c) = d) c2" by blast
    have "subseq (map fst (c1 @ c2)) (filter (has_track recognize) (drop k mf))"
      unfolding dk using s1 s2
      by (metis append_Cons append_Nil filter_append list_emb_append_mono map_append)
    with rq rq2 c1 c2 p1 p2 show ?thesis
      by (intro conjI exI [of _ "c1 @ c2"]) simp_all
  qed
qed

lemma subseq_count: "subseq xs ys \<Longrightarrow> count_list xs x \<le> count_list ys x"
  by (induction rule: list_emb.induct) auto



section \<open>No exit status but from main\<close>

lemma os_rename_not_exit: "os_rename files src dst = Inl e \<Longrightarrow> e \<noteq> SystemExit n"
  by (auto simp: os_rename_def split: option.splits node.splits if_splits)

lemma rename_not_exit: "rename src dst st = (Some e, st') \<Longrightarrow> e \<noteq> SystemExit n"
  by (auto simp: rename_def Let_def split: sum.splits dest: os_rename_not_exit)

lemma handle_result_not_exit:
  "handle_result U d ext f res st = (Some e, st') \<Longrightarrow> e \<noteq> SystemExit n"
  by (auto simp: handle_result_def Let_def split: option.splits if_splits dest: rename_not_exit)

lemma index_error: "index ys r = Inl x \<Longrightarrow> x = ValueError"
  by (induction ys arbitrary: x) (auto split: if_splits sum.splits)

lemma working_file_error:
  "working_file mf rs r = Inl x \<Longrightarrow> x = ValueError \<or> x = IndexError"
  by (auto simp: working_file_def getitem_def split: sum.splits if_splits dest: index_error)

lemma loop_body_not_exit:
  assumes "loop_body U d ext mf rs r st = (Some e, st')"
  shows "e \<noteq> SystemExit n"
proof (cases "working_file mf rs r")
  case (Inl x)
  with assms have "e = x" by (simp add: loop_body_def)
  with working_file_error [OF Inl] show ?thesis by auto
next
  case (Inr wfile)
  show ?thesis
  proof (cases "outcome r")
    case Failed
    with assms Inr have "e = ClientError" by (simp add: loop_body_def task_result_def)
    then show ?thesis by simp
  next
    case (Recognized res)
    with assms Inr have "handle_result U d ext wfile res st = (Some e, st')"
      by (simp add: loop_body_def task_result_def)
    then show ?thesis by (rule handle_result_not_exit)
  qed
qed

lemma for_results_not_exit:
  "for_results U d ext mf rs ts st = (Some e, st') \<Longrightarrow> e \<noteq> SystemExit n"
proof (induction ts arbitrary: st)
  case Nil
  then show ?case by simp
next
  case (Cons t ts)
  obtain err1 st1 where b: "loop_body U d ext mf rs t st = (err1, st1)"
    by (cases "loop_body U d ext mf rs t st")
  show ?case
  proof (cases err1)
    case None
    with Cons.prems b have "for_results U d ext mf rs ts st1 = (Some e, st')" by simp
    then show ?thesis by (rule Cons.IH)
  next
    case (Some e1)
    with Cons.prems b have "loop_body U d ext mf rs t st = (Some e, st')" by simp
    then show ?thesis by (rule loop_body_not_exit)
  qed
qed

lemma process_not_exit:
  "process_music_files U recognize d ext st = (Some e, st') \<Longrightarrow> e \<noteq> SystemExit n"
  by (auto simp: process_music_files_def Let_def split: if_splits dest: for_results_not_exit)

lemma is_dir_exists: "is_dir files p \<Longrightarrow> exists files p"
  by (simp add: is_dir_def exists_def)


section \<open>A regular file renamed onto a regular file\<close>

lemma wf_fs_parent:
  "wf_fs files \<Longrightarrow> (p, n) \<in> set files \<Longrightarrow> p \<noteq> [] \<Longrightarrow> (parent p, Dir) \<in> set files"
  by (auto simp: wf_fs_def list_all_iff is_dir_def dest: map_of_SomeD)

lemma wf_fs_lookup: "wf_fs files \<Longrightarrow> (p, n) \<in> set files \<Longrightarrow> map_of files p = Some n"
  by (simp add: wf_fs_def)

lemma file_no_children:
  assumes "wf_fs files" and "map_of files src = Some (File c)"
  shows "(src @ r, n) \<in> set files \<Longrightarrow> r = []"
proof (induction r arbitrary: n rule: rev_induct)
  case Nil
  then show ?case by simp
next
  case (snoc x r)
  from wf_fs_parent [OF assms(1) snoc.prems]
  have up: "(src @ r, Dir) \<in> set files" by (simp add: parent_def butlast_append)
  from snoc.IH [OF up] have "r = []" .
  with up have "map_of files src = Some Dir" using assms(1) by (simp add: wf_fs_lookup)
  with assms(2) show ?case by simp
qed

lemma below_file:
  assumes "wf_fs files" and "map_of files src = Some (File c)"
    and "(p, n) \<in> set files" and "prefix src p"
  shows "p = src"
proof -
  from assms(4) obtain r where "p = src @ r" by (auto simp: prefix_def)
  with file_no_children [OF assms(1,2)] assms(3) show ?thesis by auto
qed

lemma move_file:
  assumes "wf_fs files" and "map_of files src = Some (File c)"
  shows "move src dst files =
         map (\<lambda>(p, n). if p = src then (dst, n) else (p, n)) (filter (\<lambda>(p, n). p \<noteq> dst) files)"
  unfolding move_def
proof (rule map_cong [OF refl])
  fix x
  assume "x \<in> set (filter (\<lambda>(p, n). p \<noteq> dst) files)"
  then have "(fst x, snd x) \<in> set files" by simp
  from below_file [OF assms this] 
  show "(case x of (p, n) \<Rightarrow> if prefix src p then (dst @ drop (length src) p, n) else (p, n))
      = (case x of (p, n) \<Rightarrow> if p = src then (dst, n) else (p, n))"
    by (cases x) auto
qed

lemma lookup_moved_dst:
  "src \<noteq> dst \<Longrightarrow>
   map_of (map (\<lambda>(p, n). if p = src then (dst, n) else (p, n)) (filter (\<lambda>(p, n). p \<noteq> dst) files)) dst
     = map_of files src"
  by (induction files) auto

lemma lookup_moved_src:
  "src \<noteq> dst \<Longrightarrow>
   map_of (map (\<lambda>(p, n). if p = src then (dst, n) else (p, n)) (filter (\<lambda>(p, n). p \<noteq> dst) files)) src
     = None"
  by (induction files) (auto split: if_splits)

lemma os_rename_file_over_file:
  assumes "wf_fs files" and "map_of files src = Some (File c)"
    and "map_of files dst = Some (File c')" and "src \<noteq> dst" and "dst \<noteq> []"
  shows "\<exists>files'. os_rename files src dst = Inr files' \<and> map_of files' dst = Some (File c) \<and>
           map_of files' src = None"
proof -
  from assms(1,3) have "(dst, File c') \<in> set files" by (auto dest: map_of_SomeD)
  from wf_fs_parent [OF assms(1) this assms(5)] assms(1)
  have up: "map_of files (parent dst) = Some Dir" by (simp add: wf_fs_lookup)
  have np: "\<not> strict_prefix src dst"
  proof
    assume "strict_prefix src dst"
    then have "prefix src dst" by (simp add: strict_prefix_def)
    from below_file [OF assms(1,2) \<open>(dst, File c') \<in> set files\<close> this] assms(4)
    show False by simp
  qed
  have "os_rename files src dst = Inr (move src dst files)"
    using assms(2,3,4) up np by (simp add: os_rename_def)
  then show ?thesis
    using assms(2,4) by (simp add: move_file [OF assms(1,2)] lookup_moved_dst lookup_moved_src)
qed



section \<open>The rename calls of a run\<close>

lemma distinct_count: "distinct xs \<Longrightarrow> count_list xs x \<le> 1"
  by (induction xs) (auto simp: count_list_0_iff)

lemma subseq_mem: "subseq xs ys \<Longrightarrow> x \<in> set xs \<Longrightarrow> x \<in> set ys"
  by (erule list_emb_set) auto

lemma process_calls:
  assumes "rename_calls st = []"
  shows "subseq (map fst (rename_calls (snd (process_music_files U recognize d e st))))
           (filter (has_track recognize) (get_music_files_sync (fs st) d e))
       \<and> list_all (\<lambda>c. parent (snd c) = d) (rename_calls (snd (process_music_files U recognize d e st)))"
proof -
  let ?mf = "get_music_files_sync (fs st) d e"
  let ?rs = "create_tasks recognize ?mf"
  let ?st1 = "st\<lparr>requests := requests st @ ?mf\<rparr>"
  show ?thesis
  proof (cases "length ?mf = 0 \<or> list_ex (\<lambda>t. outcome t = Failed) ?rs")
    case True
    then have "rename_calls (snd (process_music_files U recognize d e st)) = []"
      using assms by (auto simp: process_music_files_def Let_def print_colored_def)
    then show ?thesis by simp
  next
    case False
    then have p: "process_music_files U recognize d e st = for_results U d e ?mf ?rs ?rs ?st1"
      by (simp add: process_music_files_def Let_def)
    obtain err st' where r: "for_results U d e ?mf ?rs ?rs ?st1 = (err, st')"
      by (cases "for_results U d e ?mf ?rs ?rs ?st1")
    have "?rs = drop 0 ?rs" by simp
    from for_results_calls [OF this r] assms p r show ?thesis by auto
  qed
qed

text \<open>
  C2, amended: every rename call of a run has its target directly in the target directory
  (\<open>directory / new_filename\<close>) and its source among the files the scan found. The target is
  in the directory of the source exactly when the source lies directly in the target
  directory; a file found in a subdirectory is moved up into the target directory.
\<close>

theorem C2_destination:
  assumes "rename_calls st = []"
    and "(src, dst) \<in> set (rename_calls (snd (process_music_files U recognize directory extension st)))"
  shows "parent dst = directory
       \<and> src \<in> set (get_music_files_sync (fs st) directory extension)
       \<and> (parent dst = parent src \<longleftrightarrow> parent src = directory)"
proof -
  let ?calls = "rename_calls (snd (process_music_files U recognize directory extension st))"
  from process_calls [OF assms(1), of U recognize directory extension]
  have s: "subseq (map fst ?calls)
        (filter (has_track recognize) (get_music_files_sync (fs st) directory extension))"
    and p: "list_all (\<lambda>c. parent (snd c) = directory) ?calls"
    by simp_all
  from p assms(2) have d: "parent dst = directory"
    by (auto simp: list_all_iff)
  from assms(2) have "src \<in> set (map fst ?calls)" by force
  with s have m: "src \<in> set (filter (has_track recognize) (get_music_files_sync (fs st) directory extension))"
    by (rule subseq_mem)
  with d show ?thesis by auto
qed

text \<open>
  C9: in a run on a well-formed file system that starts with no rename call made, no path
  is the source of more than one rename call.
\<close>

theorem C9_renamed_once:
  assumes "wf_fs (fs st)" and "rename_calls st = []"
  shows "count_list (map fst (rename_calls (snd (process_music_files U recognize directory extension st)))) p \<le> 1"
proof -
  let ?mf = "get_music_files_sync (fs st) directory extension"
  from assms(1) have "distinct ?mf"
    by (simp add: get_music_files_sync_def rglob_def wf_fs_def)
  then have "distinct (filter (has_track recognize) ?mf)" by simp
  then have "count_list (filter (has_track recognize) ?mf) p \<le> 1"
    by (rule distinct_count)
  moreover from process_calls [OF assms(2), of U recognize directory extension]
  have "count_list (map fst (rename_calls (snd (process_music_files U recognize directory extension st)))) p
      \<le> count_list (filter (has_track recognize) ?mf) p"
    by (simp add: subseq_count)
  ultimately show ?thesis by simp
qed


text \<open>
  C2, as the specification states it: the target of a rename would be in the directory of
  its source, also for a file found in a subdirectory. The only music file here is
  \<open>music/sub/b.mp3\<close>; the run renames it to \<open>music/X_-_Y.mp3\<close>, out of its directory.
\<close>

theorem C2_counterexample:
  "wf_fs fs_sub
   \<and> get_music_files_sync fs_sub music (str ''mp3'') = [sub_b_mp3]
   \<and> rename_calls (snd (process_music_files ascii_db recognize_xy music (str ''mp3'') (initial fs_sub)))
       = [(sub_b_mp3, xy_mp3)]
   \<and> parent sub_b_mp3 = music @ [str ''sub'']
   \<and> parent xy_mp3 = music
   \<and> parent xy_mp3 \<noteq> parent sub_b_mp3
   \<and> fs (snd (process_music_files ascii_db recognize_xy music (str ''mp3'') (initial fs_sub)))
       = [([], Dir), (music, Dir), (music @ [str ''sub''], Dir), (xy_mp3, File 3)]"
  by code_simp

theorem C2_destination_witness:
  "rename_calls (initial fs_sub) = []
   \<and> (sub_b_mp3, xy_mp3) \<in> set (rename_calls
         (snd (process_music_files ascii_db recognize_xy music (str ''mp3'') (initial fs_sub))))
   \<and> parent xy_mp3 = music
   \<and> sub_b_mp3 \<in> set (get_music_files_sync (fs (initial fs_sub)) music (str ''mp3''))
   \<and> parent sub_b_mp3 \<noteq> music"
proof -
  have h1: "rename_calls (initial fs_sub) = []"
    by (simp add: initial_def)
  have "rename_calls (snd (process_music_files ascii_db recognize_xy music (str ''mp3'') (initial fs_sub)))
      = [(sub_b_mp3, xy_mp3)]"
    by code_simp
  then have h2: "(sub_b_mp3, xy_mp3) \<in> set (rename_calls
      (snd (process_music_files ascii_db recognize_xy music (str ''mp3'') (initial fs_sub))))"
    by simp
  have h3: "parent sub_b_mp3 \<noteq> music"
    by code_simp
  from C2_destination [OF h1 h2] h1 h2 h3 show ?thesis by simp
qed

theorem C9_renamed_once_witness:
  "wf_fs (fs (initial fs_clash))
   \<and> rename_calls (snd (process_music_files ascii_db recognize_xy music (str ''mp3'') (initial fs_clash)))
       = [(a_mp3, xy_mp3), (xy_mp3, xy_mp3)]
   \<and> count_list (map fst (rename_calls
        (snd (process_music_files ascii_db recognize_xy music (str ''mp3'') (initial fs_clash))))) a_mp3 \<le> 1"
proof -
  have h1: "wf_fs (fs (initial fs_clash))"
    by code_simp
  have h2: "rename_calls (initial fs_clash) = []"
    by (simp add: initial_def)
  have h3: "rename_calls (snd (process_music_files ascii_db recognize_xy music (str ''mp3'') (initial fs_clash)))
       = [(a_mp3, xy_mp3), (xy_mp3, xy_mp3)]"
    by code_simp
  from C9_renamed_once [OF h1 h2, of ascii_db recognize_xy music "str ''mp3''" a_mp3] h1 h3
  show ?thesis by simp
qed

section \<open>A target that exists\<close>

text \<open>
  C3, as the specification states it: with the target of a rename already there, the
  rename would be skipped, source and target staying as they are. Here \<open>a.mp3\<close> is
  recognized as X - Y and \<open>X_-_Y.mp3\<close> exists: after the run \<open>a.mp3\<close> is gone and
  \<open>X_-_Y.mp3\<close> holds what \<open>a.mp3\<close> held.
\<close>

theorem C3_counterexample:
  "wf_fs fs_clash
   \<and> get_music_files_sync fs_clash music (str ''mp3'') = [a_mp3, xy_mp3]
   \<and> joinpath music (new_filename ascii_db (str ''X'') (str ''Y'') (str ''mp3'')) = xy_mp3
   \<and> exists fs_clash xy_mp3
   \<and> process_music_files ascii_db recognize_a music (str ''mp3'') (initial fs_clash)
       = (None,
          \<lparr>fs = [([], Dir), (music, Dir), (xy_mp3, File 1)],
           console = [(Renaming a_mp3 (str ''X_-_Y.mp3''), MAGENTA),
                      (NoSongInformation xy_mp3, YELLOW)],
           requests = [a_mp3, xy_mp3],
           rename_calls = [(a_mp3, xy_mp3)]\<rparr>)
   \<and> fs (snd (process_music_files ascii_db recognize_a music (str ''mp3'') (initial fs_clash)))
       \<noteq> fs_clash"
  by code_simp

text \<open>
  C3, amended: the code makes no check of the target; the rename is called whenever the
  source exists. With the POSIX semantics of rename, when source and target are different
  regular files of a well-formed file system, no error is raised, the target holds what the
  source held and the source path is gone.
\<close>

theorem C3_target_replaced:
  assumes "wf_fs (fs st)"
    and "i < length music_files"
    and "results = create_tasks recognize music_files"
    and "recognize (music_files ! i) = Recognized (Some tr)"
    and "dst = joinpath directory
           (new_filename U (get (subtitle tr) (str ''Unknown Artist''))
              (get (title tr) (str ''Unknown Title'')) extension)"
    and "map_of (fs st) (music_files ! i) = Some (File c)"
    and "map_of (fs st) dst = Some (File c')"
    and "music_files ! i \<noteq> dst"
  shows "fst (loop_body U directory extension music_files results (results ! i) st) = None
       \<and> map_of (fs (snd (loop_body U directory extension music_files results (results ! i) st))) dst
           = Some (File c)
       \<and> map_of (fs (snd (loop_body U directory extension music_files results (results ! i) st)))
           (music_files ! i) = None
       \<and> rename_calls (snd (loop_body U directory extension music_files results (results ! i) st))
           = rename_calls st @ [(music_files ! i, dst)]"
proof -
  let ?src = "music_files ! i"
  let ?name = "new_filename U (get (subtitle tr) (str ''Unknown Artist''))
              (get (title tr) (str ''Unknown Title'')) extension"
  let ?st1 = "print_colored (Renaming ?src ?name) MAGENTA st"
  have ex: "exists (fs ?st1) ?src"
    using assms(6) by (simp add: exists_def print_colored_def)
  have b: "loop_body U directory extension music_files results (results ! i) st
      = rename ?src dst ?st1"
    using assms(2,3,4,5) ex by (simp add: loop_body_nth handle_result_def Let_def)
  have ne: "dst \<noteq> []"
    using assms(5) by (simp add: joinpath_def)
  from os_rename_file_over_file [OF assms(1,6,7,8) ne]
  obtain files' where r: "os_rename (fs st) ?src dst = Inr files'"
    and d: "map_of files' dst = Some (File c)" and s: "map_of files' ?src = None"
    by blast
  have "rename ?src dst ?st1
      = (None, ?st1\<lparr>rename_calls := rename_calls st @ [(?src, dst)], fs := files'\<rparr>)"
    using r by (simp add: rename_def Let_def print_colored_def)
  with b d s show ?thesis by simp
qed

theorem C3_target_replaced_witness:
  "map_of fs_clash a_mp3 = Some (File 1)
   \<and> map_of fs_clash xy_mp3 = Some (File 2)
   \<and> fst (loop_body ascii_db music (str ''mp3'') [a_mp3, xy_mp3]
        (create_tasks recognize_a [a_mp3, xy_mp3]) (create_tasks recognize_a [a_mp3, xy_mp3] ! 0)
        (initial fs_clash)) = None
   \<and> map_of (fs (snd (loop_body ascii_db music (str ''mp3'') [a_mp3, xy_mp3]
        (create_tasks recognize_a [a_mp3, xy_mp3]) (create_tasks recognize_a [a_mp3, xy_mp3] ! 0)
        (initial fs_clash)))) xy_mp3 = Some (File 1)
   \<and> map_of (fs (snd (loop_body ascii_db music (str ''mp3'') [a_mp3, xy_mp3]
        (create_tasks recognize_a [a_mp3, xy_mp3]) (create_tasks recognize_a [a_mp3, xy_mp3] ! 0)
        (initial fs_clash)))) a_mp3 = None"
proof -
  let ?tr = "\<lparr>title = Some (str ''Y''), subtitle = Some (str ''X'')\<rparr>"
  have h1: "wf_fs (fs (initial fs_clash))"
    by code_simp
  have h2: "0 < length [a_mp3, xy_mp3]"
    by simp
  have h4: "recognize_a ([a_mp3, xy_mp3] ! 0) = Recognized (Some ?tr)"
    by (simp add: recognize_a_def recognized_def)
  have h5: "xy_mp3 = joinpath music
           (new_filename ascii_db (get (subtitle ?tr) (str ''Unknown Artist''))
              (get (title ?tr) (str ''Unknown Title'')) (str ''mp3''))"
    by code_simp
  have h6: "map_of (fs (initial fs_clash)) ([a_mp3, xy_mp3] ! 0) = Some (File 1)"
    by code_simp
  have h7: "map_of (fs (initial fs_clash)) xy_mp3 = Some (File 2)"
    by code_simp
  have h8: "[a_mp3, xy_mp3] ! 0 \<noteq> xy_mp3"
    by code_simp
  from C3_target_replaced [where st = "initial fs_clash" and i = 0
      and music_files = "[a_mp3, xy_mp3]" and recognize = recognize_a and tr = ?tr
      and dst = xy_mp3 and directory = music and U = ascii_db and extension = "str ''mp3''"
      and c = 1 and c' = 2, OF h1 h2 refl h4 h5 h6 h7 h8] h6 h7
  show ?thesis by (simp add: initial_def)
qed



section \<open>The target directory\<close>

text \<open>
  C4: when the target path does not exist, \<open>main\<close> prints that the directory is missing and
  exits with status 1, and no file was handed to the client. When the path exists, directory
  or not, \<open>main\<close> is \<open>process_music_files\<close> on it: it never raises \<open>SystemExit(1)\<close>, and the
  exit status is 0 when no exception reaches the top.
\<close>

theorem C4_main_exit:
  "(\<not> exists (fs st) target_dir \<longrightarrow>
      main U recognize target_dir extension st
        = (Some (SystemExit 1), print_colored (DirectoryMissing target_dir) RED st)
      \<and> exit_code (fst (main U recognize target_dir extension st)) = 1
      \<and> requests (snd (main U recognize target_dir extension st)) = requests st)
   \<and> (exists (fs st) target_dir \<longrightarrow>
      main U recognize target_dir extension st
        = process_music_files U recognize target_dir (Extension_value extension) st
      \<and> fst (main U recognize target_dir extension st) \<noteq> Some (SystemExit 1)
      \<and> (fst (main U recognize target_dir extension st) = None \<longrightarrow>
           exit_code (fst (main U recognize target_dir extension st)) = 0))"
proof (intro conjI impI)
  assume n: "\<not> exists (fs st) target_dir"
  then have "\<not> is_dir (fs st) target_dir"
    by (auto dest: is_dir_exists)
  with n show m: "main U recognize target_dir extension st
      = (Some (SystemExit 1), print_colored (DirectoryMissing target_dir) RED st)"
    by (simp add: main_def)
  show "exit_code (fst (main U recognize target_dir extension st)) = 1"
    by (simp add: m)
  show "requests (snd (main U recognize target_dir extension st)) = requests st"
    by (simp add: m print_colored_def)
next
  assume e: "exists (fs st) target_dir"
  then show m: "main U recognize target_dir extension st
      = process_music_files U recognize target_dir (Extension_value extension) st"
    by (simp add: main_def)
  show "fst (main U recognize target_dir extension st) \<noteq> Some (SystemExit 1)"
  proof
    assume "fst (main U recognize target_dir extension st) = Some (SystemExit 1)"
    then have "process_music_files U recognize target_dir (Extension_value extension) st
        = (Some (SystemExit 1), snd (process_music_files U recognize target_dir (Extension_value extension) st))"
      by (simp add: m prod_eq_iff)
    from process_not_exit [OF this, of 1] show False by simp
  qed
next
  assume "fst (main U recognize target_dir extension st) = None"
  then show "exit_code (fst (main U recognize target_dir extension st)) = 0"
    by simp
qed

theorem C4_main_exit_witness:
  "\<not> exists (fs (initial fs_two)) nowhere
   \<and> main ascii_db recognize_xy nowhere MP3 (initial fs_two)
       = (Some (SystemExit 1), print_colored (DirectoryMissing nowhere) RED (initial fs_two))
   \<and> exit_code (fst (main ascii_db recognize_xy nowhere MP3 (initial fs_two))) = 1
   \<and> requests (snd (main ascii_db recognize_xy nowhere MP3 (initial fs_two))) = []
   \<and> exists (fs (initial fs_two)) a_mp3
   \<and> \<not> is_dir (fs (initial fs_two)) a_mp3
   \<and> fst (main ascii_db recognize_xy a_mp3 MP3 (initial fs_two)) = None
   \<and> exit_code (fst (main ascii_db recognize_xy a_mp3 MP3 (initial fs_two))) = 0
   \<and> exists (fs (initial fs_two)) music
   \<and> exit_code (fst (main ascii_db recognize_xy music MP3 (initial fs_two))) = 0"
proof -
  have h1: "\<not> exists (fs (initial fs_two)) nowhere"
    by code_simp
  have h2: "exists (fs (initial fs_two)) a_mp3"
    by code_simp
  have h3: "\<not> is_dir (fs (initial fs_two)) a_mp3"
    by code_simp
  have h4: "fst (main ascii_db recognize_xy a_mp3 MP3 (initial fs_two)) = None"
    by code_simp
  have h5: "exists (fs (initial fs_two)) music"
    by code_simp
  have h6: "fst (main ascii_db recognize_xy music MP3 (initial fs_two)) = None"
    by code_simp
  have r: "requests (initial fs_two) = []"
    by (simp add: initial_def)
  from C4_main_exit [of "initial fs_two" nowhere ascii_db recognize_xy MP3]
    C4_main_exit [of "initial fs_two" a_mp3 ascii_db recognize_xy MP3]
    C4_main_exit [of "initial fs_two" music ascii_db recognize_xy MP3]
    h1 h2 h3 h4 h5 h6 r
  show ?thesis by (simp add: print_colored_def)
qed

section \<open>Nothing to do, no match, no source\<close>

text \<open>
  When no entry of the file system, regular file or directory, lies below the directory
  with a name that ends in a dot and the extension, the run prints that no music files were
  found and nothing else, makes no rename call, hands no path to the client and leaves the
  file system as it is.
\<close>

lemma no_matching_entry:
  assumes "list_all (\<lambda>(p, n). \<not> (strict_prefix directory p \<and> suffix (str ''.'' @ extension) (last p)))
             (fs st)"
  shows "process_music_files U recognize directory extension st
           = (None, print_colored (NoMusicFiles extension directory) RED st)
       \<and> console (snd (process_music_files U recognize directory extension st))
           = console st @ [(NoMusicFiles extension directory, RED)]
       \<and> rename_calls (snd (process_music_files U recognize directory extension st))
           = rename_calls st
       \<and> requests (snd (process_music_files U recognize directory extension st)) = requests st
       \<and> fs (snd (process_music_files U recognize directory extension st)) = fs st"
proof -
  from assms have "get_music_files_sync (fs st) directory extension = []"
    by (auto simp: get_music_files_sync_def rglob_def list_all_iff filter_empty_conv)
  then have "process_music_files U recognize directory extension st
           = (None, print_colored (NoMusicFiles extension directory) RED st)"
    by (simp add: process_music_files_def)
  then show ?thesis
    by (simp add: print_colored_def)
qed

text \<open>
  C8: a target directory with zero files matching the extension is to be reported as
  holding no music files, with no rename and no recognition request. The docstring of
  \<open>get_music_files_sync\<close> promises a list of all files with the extension, but \<open>rglob\<close> matches
  names and the result is not filtered to regular files. Here \<open>music\<close> holds no \<open>mp3\<close> file,
  only a text file and a directory named \<open>live.mp3\<close>: the scan returns the directory, it is
  handed to the client, and the line about no music files is never printed. With a client
  that raises on it the run ends in an exception group; with a client that answers, the
  directory itself is renamed.
\<close>

theorem C8_directory_scanned:
  "fs_live = [([], Dir), (music, Dir), (live_mp3, Dir), (notes_txt, File 1)]
   \<and> wf_fs fs_live
   \<and> is_dir fs_live live_mp3
   \<and> get_music_files_sync fs_live music (str ''mp3'') = [live_mp3]
   \<and> process_music_files ascii_db recognize_fails music (str ''mp3'') (initial fs_live)
       = (Some ExceptionGroup,
          \<lparr>fs = fs_live, console = [], requests = [live_mp3], rename_calls = []\<rparr>)
   \<and> process_music_files ascii_db recognize_xy music (str ''mp3'') (initial fs_live)
       = (None,
          \<lparr>fs = [([], Dir), (music, Dir), (xy_mp3, Dir), (notes_txt, File 1)],
           console = [(Renaming live_mp3 (str ''X_-_Y.mp3''), MAGENTA)],
           requests = [live_mp3],
           rename_calls = [(live_mp3, xy_mp3)]\<rparr>)"
  by code_simp

text \<open>
  C6: when the client returned a track for the \<open>i\<close>-th file and the file does not exist
  as the loop reaches it, the body of the loop raises nothing, makes no rename call and
  leaves the file system as it is, and the loop goes on with the next result.
\<close>

theorem C6_missing_source:
  assumes "i < length music_files"
    and "results = create_tasks recognize music_files"
    and "recognize (music_files ! i) = Recognized (Some tr)"
    and "\<not> exists (fs st) (music_files ! i)"
  shows "fst (loop_body U directory extension music_files results (results ! i) st) = None
       \<and> fs (snd (loop_body U directory extension music_files results (results ! i) st)) = fs st
       \<and> rename_calls (snd (loop_body U directory extension music_files results (results ! i) st))
           = rename_calls st
       \<and> for_results U directory extension music_files results (drop i results) st
           = for_results U directory extension music_files results (drop (Suc i) results)
               (snd (loop_body U directory extension music_files results (results ! i) st))"
proof -
  let ?name = "new_filename U (get (subtitle tr) (str ''Unknown Artist''))
              (get (title tr) (str ''Unknown Title'')) extension"
  have b: "loop_body U directory extension music_files results (results ! i) st
      = (None, print_colored (Renaming (music_files ! i) ?name) MAGENTA st)"
    using assms by (simp add: loop_body_nth handle_result_def Let_def print_colored_def)
  have "i < length results"
    using assms(1,2) by (simp add: length_create_tasks)
  then have "drop i results = results ! i # drop (Suc i) results"
    by (simp add: Cons_nth_drop_Suc)
  with b show ?thesis
    by (simp add: print_colored_def)
qed

theorem C6_missing_source_witness:
  "\<not> exists (fs (initial fs_gone)) (two_files ! 0)
   \<and> loop_body ascii_db music (str ''mp3'') two_files (create_tasks recognize_xy two_files)
        (create_tasks recognize_xy two_files ! 0) (initial fs_gone)
       = (None, \<lparr>fs = fs_gone, console = [(Renaming a_mp3 (str ''X_-_Y.mp3''), MAGENTA)],
                 requests = [], rename_calls = []\<rparr>)
   \<and> fst (loop_body ascii_db music (str ''mp3'') two_files (create_tasks recognize_xy two_files)
        (create_tasks recognize_xy two_files ! 0) (initial fs_gone)) = None
   \<and> fs (snd (loop_body ascii_db music (str ''mp3'') two_files (create_tasks recognize_xy two_files)
        (create_tasks recognize_xy two_files ! 0) (initial fs_gone))) = fs (initial fs_gone)
   \<and> rename_calls (snd (loop_body ascii_db music (str ''mp3'') two_files
        (create_tasks recognize_xy two_files) (create_tasks recognize_xy two_files ! 0)
        (initial fs_gone))) = rename_calls (initial fs_gone)"
proof -
  let ?tr = "\<lparr>title = Some (str ''Y''), subtitle = Some (str ''X'')\<rparr>"
  have h1: "0 < length two_files"
    by (simp add: two_files_def)
  have h3: "recognize_xy (two_files ! 0) = Recognized (Some ?tr)"
    by (simp add: recognize_xy_def recognized_def)
  have h4: "\<not> exists (fs (initial fs_gone)) (two_files ! 0)"
    by code_simp
  have v: "loop_body ascii_db music (str ''mp3'') two_files (create_tasks recognize_xy two_files)
        (create_tasks recognize_xy two_files ! 0) (initial fs_gone)
       = (None, \<lparr>fs = fs_gone, console = [(Renaming a_mp3 (str ''X_-_Y.mp3''), MAGENTA)],
                 requests = [], rename_calls = []\<rparr>)"
    by code_simp
  from C6_missing_source [where U = ascii_db and directory = music and extension = "str ''mp3''"
      and st = "initial fs_gone" and tr = ?tr and i = 0 and music_files = two_files
      and recognize = recognize_xy, OF h1 refl h3 h4] h4 v
  show ?thesis by simp
qed

text \<open>
  C7: when the client returned a dictionary without \<open>"track"\<close> for the \<open>i\<close>-th file, the body
  of the loop prints that no song information was found for that file and raises nothing;
  the loop goes on with the next result, with the file system and the rename calls as they
  were; and in a whole run the file is the source of no rename call.
\<close>

theorem C7_no_track:
  assumes "i < length music_files"
    and "results = create_tasks recognize music_files"
    and "recognize (music_files ! i) = Recognized None"
  shows "loop_body U directory extension music_files results (results ! i) st
           = (None, print_colored (NoSongInformation (music_files ! i)) YELLOW st)
       \<and> for_results U directory extension music_files results (drop i results) st
           = for_results U directory extension music_files results (drop (Suc i) results)
               (print_colored (NoSongInformation (music_files ! i)) YELLOW st)
       \<and> fs (print_colored (NoSongInformation (music_files ! i)) YELLOW st) = fs st
       \<and> rename_calls (print_colored (NoSongInformation (music_files ! i)) YELLOW st)
           = rename_calls st
       \<and> (rename_calls st0 = [] \<longrightarrow>
            music_files = get_music_files_sync (fs st0) directory extension \<longrightarrow>
            music_files ! i \<notin> fst ` set (rename_calls
              (snd (process_music_files U recognize directory extension st0))))"
proof (intro conjI impI)
  show b: "loop_body U directory extension music_files results (results ! i) st
      = (None, print_colored (NoSongInformation (music_files ! i)) YELLOW st)"
    using assms by (simp add: loop_body_nth handle_result_None)
  have "i < length results"
    using assms(1,2) by (simp add: length_create_tasks)
  then have "drop i results = results ! i # drop (Suc i) results"
    by (simp add: Cons_nth_drop_Suc)
  with b show "for_results U directory extension music_files results (drop i results) st
      = for_results U directory extension music_files results (drop (Suc i) results)
          (print_colored (NoSongInformation (music_files ! i)) YELLOW st)"
    by simp
  show "fs (print_colored (NoSongInformation (music_files ! i)) YELLOW st) = fs st"
    by (simp add: print_colored_def)
  show "rename_calls (print_colored (NoSongInformation (music_files ! i)) YELLOW st)
      = rename_calls st"
    by (simp add: print_colored_def)
next
  assume e: "rename_calls st0 = []"
    and m: "music_files = get_music_files_sync (fs st0) directory extension"
  let ?calls = "rename_calls (snd (process_music_files U recognize directory extension st0))"
  show "music_files ! i \<notin> fst ` set ?calls"
  proof
    assume "music_files ! i \<in> fst ` set ?calls"
    then have "music_files ! i \<in> set (map fst ?calls)" by simp
    with process_calls [OF e, of U recognize directory extension]
    have "music_files ! i \<in> set (filter (has_track recognize)
        (get_music_files_sync (fs st0) directory extension))"
      by (blast intro: subseq_mem)
    then have "has_track recognize (music_files ! i)" by simp
    with assms(3) show False by (simp add: has_track_def)
  qed
qed

theorem C7_no_track_witness:
  "recognize_a (two_files ! 1) = Recognized None
   \<and> for_results ascii_db music (str ''mp3'') two_files (create_tasks recognize_a two_files)
        (drop 1 (create_tasks recognize_a two_files)) (initial fs_two)
       = (None, \<lparr>fs = fs_two, console = [(NoSongInformation b_mp3, YELLOW)],
                 requests = [], rename_calls = []\<rparr>)
   \<and> two_files = get_music_files_sync (fs (initial fs_two)) music (str ''mp3'')
   \<and> rename_calls (snd (process_music_files ascii_db recognize_a music (str ''mp3'') (initial fs_two)))
       = [(a_mp3, xy_mp3)]
   \<and> b_mp3 \<notin> fst ` set (rename_calls
        (snd (process_music_files ascii_db recognize_a music (str ''mp3'') (initial fs_two))))"
proof -
  have h1: "1 < length two_files"
    by (simp add: two_files_def)
  have h3: "recognize_a (two_files ! 1) = Recognized None"
    by code_simp
  have h4: "rename_calls (initial fs_two) = []"
    by (simp add: initial_def)
  have h5: "two_files = get_music_files_sync (fs (initial fs_two)) music (str ''mp3'')"
    by code_simp
  have b: "two_files ! 1 = b_mp3"
    by (simp add: two_files_def)
  have d: "drop (Suc 1) (create_tasks recognize_a two_files) = []"
    by (simp add: length_create_tasks two_files_def)
  have v: "rename_calls (snd (process_music_files ascii_db recognize_a music (str ''mp3'') (initial fs_two)))
       = [(a_mp3, xy_mp3)]"
    by code_simp
  from C7_no_track [where U = ascii_db and directory = music and extension = "str ''mp3''"
      and st = "initial fs_two" and ?st0.0 = "initial fs_two" and i = 1
      and music_files = two_files and recognize = recognize_a, OF h1 refl h3] h3 h4 h5 b d v
  show ?thesis by (simp add: initial_def print_colored_def)
qed


end
